theory Spec2Isabelle
  imports Main
begin

section \<open>Python values\<close>

text \<open>
  A Python \<open>str\<close> is a sequence of Unicode code points, so a string is a list of
  code points (natural numbers below \<open>0x110000\<close>). Lone surrogates
  (\<open>0xD800\<close> to \<open>0xDFFF\<close>) are legal elements of a \<open>str\<close>; they matter
  where the scripts encode text as UTF-8. \<open>lit\<close> turns an ASCII literal of the
  source into its code points.
\<close>

type_synonym pychar = nat
type_synonym pystr = "pychar list"

definition lit :: "string \<Rightarrow> pystr" where
  "lit s = map of_char s"

text \<open>
  The exceptions that the two scripts can meet. All of them derive from
  \<open>Exception\<close>; \<open>is_OSError\<close> tells which ones an \<open>except OSError\<close> clause
  catches (\<open>UnicodeEncodeError\<close> derives from \<open>ValueError\<close>, not from
  \<open>OSError\<close>).
\<close>

datatype exn = OSError | ValueError | UnicodeEncodeError | AttributeError
  | IndexError | JSONDecodeError

fun is_OSError :: "exn \<Rightarrow> bool" where
  "is_OSError OSError = True"
| "is_OSError _ = False"

text \<open>
  The values that \<open>json.loads\<close> builds: \<open>None\<close>, \<open>bool\<close>, \<open>int\<close>,
  \<open>float\<close>, \<open>str\<close>, \<open>list\<close> and \<open>dict\<close>. A dict is kept as its list of
  items; \<open>dict.get\<close> answers \<open>None\<close> for a key that is absent. The payload of a
  float is never inspected by the scripts.
\<close>

datatype pyfloat = Float_finite int int | Float_inf bool | Float_nan

datatype pyval = PNone | PBool bool | PInt int | PFloat pyfloat | PStr pystr
  | PList "pyval list" | PDict "(pystr \<times> pyval) list"

definition dict_get :: "(pystr \<times> pyval) list \<Rightarrow> pystr \<Rightarrow> pyval" where
  "dict_get d k = (case map_of d k of None \<Rightarrow> PNone | Some v \<Rightarrow> v)"

text \<open>
  \<open>data.get(k)\<close> on an arbitrary value: only a dict has the method; on a list,
  a string, a number, a bool or \<open>None\<close> the attribute lookup raises
  \<open>AttributeError\<close>.
\<close>

fun py_get :: "pyval \<Rightarrow> pystr \<Rightarrow> exn + pyval" where
  "py_get (PDict d) k = Inr (dict_get d k)"
| "py_get _ k = Inl AttributeError"

text \<open>\<open>isinstance(v, str) and v\<close>: the string when \<open>v\<close> is a non-empty string.\<close>

fun nonempty_str :: "pyval \<Rightarrow> pystr option" where
  "nonempty_str (PStr s) = (if s \<noteq> [] then Some s else None)"
| "nonempty_str _ = None"

text \<open>
  A value that the resolution of the session identifier passes over: anything
  that is not a string, and the empty string.
\<close>

fun skipped_value :: "pyval \<Rightarrow> bool" where
  "skipped_value (PStr s) = (s = [])"
| "skipped_value _ = True"

text \<open>\<open>str(n)\<close> for a non-negative integer: its decimal digits.\<close>

fun decimal :: "nat \<Rightarrow> pystr" where
  "decimal n = (if n < 10 then [48 + n] else decimal (n div 10) @ [48 + n mod 10])"

declare decimal.simps [simp del]


section \<open>Session identifier resolution\<close>

text \<open>
  \<open>extract_session_id\<close> (pywen\_stop.py lines 33 to 43, and the identical copy in
  pywen\_userprompt.py lines 44 to 54). The \<open>for\<close> loop over the tuple of key
  spellings is the recursion \<open>scan_session_keys\<close>; it returns from the function at
  the first key whose value is a non-empty string. The process identifier
  \<open>os.getpid()\<close> is the parameter \<open>pid\<close>.
\<close>

definition SESSION_KEYS :: "pystr list" where
  "SESSION_KEYS = [lit ''session_id'', lit ''sessionId'', lit ''sessionID'', lit ''sid'']"

fun scan_session_keys :: "pyval \<Rightarrow> pystr list \<Rightarrow> exn + pystr option" where
  "scan_session_keys data [] = Inr None"
| "scan_session_keys data (k # ks) =
     (case py_get data k of
        Inl e \<Rightarrow> Inl e
      | Inr v \<Rightarrow>
          (case nonempty_str v of
             Some s \<Rightarrow> Inr (Some s)
           | None \<Rightarrow> scan_session_keys data ks))"

definition pid_name :: "nat \<Rightarrow> pystr" where
  "pid_name pid = lit ''pid_'' @ decimal pid"

definition extract_session_id :: "nat \<Rightarrow> pyval \<Rightarrow> exn + pystr" where
  "extract_session_id pid data =
     (case scan_session_keys data SESSION_KEYS of
        Inl e \<Rightarrow> Inl e
      | Inr (Some v) \<Rightarrow> Inr v
      | Inr None \<Rightarrow>
          (case py_get data (lit ''session'') of
             Inl e \<Rightarrow> Inl e
           | Inr sess \<Rightarrow>
               (case sess of
                  PDict sd \<Rightarrow>
                    (case nonempty_str (dict_get sd (lit ''id'')) of
                       Some v \<Rightarrow> Inr v
                     | None \<Rightarrow> Inr (pid_name pid))
                | _ \<Rightarrow> Inr (pid_name pid))))"

text \<open>
  The resolution order in the words of the specification: the four top-level
  spellings in order, then the nested \<open>session.id\<close>, then the synthesized
  \<open>pid_<pid>\<close>.
\<close>

definition nested_session_id :: "(pystr \<times> pyval) list \<Rightarrow> pystr option" where
  "nested_session_id d =
     (case dict_get d (lit ''session'') of
        PDict sd \<Rightarrow> nonempty_str (dict_get sd (lit ''id''))
      | _ \<Rightarrow> None)"

definition resolve_session_spec :: "nat \<Rightarrow> (pystr \<times> pyval) list \<Rightarrow> pystr" where
  "resolve_session_spec pid d =
     (case nonempty_str (dict_get d (lit ''session_id'')) of Some v \<Rightarrow> v | None \<Rightarrow>
      (case nonempty_str (dict_get d (lit ''sessionId'')) of Some v \<Rightarrow> v | None \<Rightarrow>
      (case nonempty_str (dict_get d (lit ''sessionID'')) of Some v \<Rightarrow> v | None \<Rightarrow>
      (case nonempty_str (dict_get d (lit ''sid'')) of Some v \<Rightarrow> v | None \<Rightarrow>
      (case nested_session_id d of Some v \<Rightarrow> v | None \<Rightarrow>
       lit ''pid_'' @ decimal pid)))))"


section \<open>Text operations of \<open>str\<close>\<close>

text \<open>
  \<open>str.isspace\<close> for one code point, which is also what \<open>str.strip()\<close>
  removes and what \<open>\s\<close> matches in a \<open>str\<close> pattern of the \<open>re\<close> module:
  the code points of bidirectional type WS, B or S and of category Zs.
\<close>

definition isspace :: "pychar \<Rightarrow> bool" where
  "isspace c \<longleftrightarrow>
     (9 \<le> c \<and> c \<le> 13) \<or> (28 \<le> c \<and> c \<le> 32) \<or> c = 133 \<or> c = 160 \<or> c = 5760
     \<or> (8192 \<le> c \<and> c \<le> 8202) \<or> c = 8232 \<or> c = 8233 \<or> c = 8239 \<or> c = 8287
     \<or> c = 12288"

text \<open>
  The line boundaries of \<open>str.splitlines()\<close>: LF, VT, FF, CR, FS, GS, RS, NEL,
  LS and PS (and the pair CR LF, which counts once).
\<close>

definition is_linebreak :: "pychar \<Rightarrow> bool" where
  "is_linebreak c \<longleftrightarrow>
     (10 \<le> c \<and> c \<le> 13) \<or> (28 \<le> c \<and> c \<le> 30) \<or> c = 133 \<or> c = 8232 \<or> c = 8233"

definition strip :: "pystr \<Rightarrow> pystr" where
  "strip s = rev (dropWhile isspace (rev (dropWhile isspace s)))"

text \<open>
  \<open>splitlines_from acc s\<close> reads \<open>s\<close> with the current line collected in \<open>acc\<close>
  (reversed). A boundary ends the current line, even an empty one; the text after
  the last boundary is a line only when it is not empty, so the empty string has
  no line and a text that ends in one boundary has no empty last line.
\<close>

fun splitlines_from :: "pystr \<Rightarrow> pystr \<Rightarrow> pystr list" where
  "splitlines_from acc [] = (if acc = [] then [] else [rev acc])"
| "splitlines_from acc [c] =
     (if is_linebreak c then [rev acc] else [rev (c # acc)])"
| "splitlines_from acc (c # d # ds) =
     (if c = 13 \<and> d = 10 then rev acc # splitlines_from [] ds
      else if is_linebreak c then rev acc # splitlines_from [] (d # ds)
      else splitlines_from (c # acc) (d # ds))"

definition splitlines :: "pystr \<Rightarrow> pystr list" where
  "splitlines s = splitlines_from [] s"

text \<open>
  Reading a file in text mode with the default \<open>newline=None\<close> (as
  \<open>Path.read_text\<close> does) translates CR LF and a lone CR to LF.
\<close>

fun universal_newlines :: "pystr \<Rightarrow> pystr" where
  "universal_newlines [] = []"
| "universal_newlines [c] = [if c = 13 then 10 else c]"
| "universal_newlines (c # d # ds) =
     (if c = 13 \<and> d = 10 then 10 # universal_newlines ds
      else (if c = 13 then 10 else c) # universal_newlines (d # ds))"

text \<open>
  \<open>str.encode("utf-8")\<close>: a lone surrogate cannot be encoded and raises
  \<open>UnicodeEncodeError\<close>; every other code point becomes one to four bytes.
\<close>

definition is_surrogate :: "pychar \<Rightarrow> bool" where
  "is_surrogate c \<longleftrightarrow> 55296 \<le> c \<and> c \<le> 57343"

definition utf8_char :: "pychar \<Rightarrow> nat list" where
  "utf8_char c =
     (if c < 128 then [c]
      else if c < 2048 then [192 + c div 64, 128 + c mod 64]
      else if c < 65536 then [224 + c div 4096, 128 + (c div 64) mod 64, 128 + c mod 64]
      else [240 + c div 262144, 128 + (c div 4096) mod 64, 128 + (c div 64) mod 64,
            128 + c mod 64])"

definition utf8_encode :: "pystr \<Rightarrow> exn + nat list" where
  "utf8_encode s =
     (if list_ex is_surrogate s then Inl UnicodeEncodeError
      else Inr (concat (map utf8_char s)))"


text \<open>
  The character class \<open>[^\s"']\<close> of the case pattern: neither whitespace nor
  one of the two quote characters. \<open>first_line\<close> is the text before the
  first line boundary.
\<close>

definition token_char :: "pychar \<Rightarrow> bool" where
  "token_char c \<longleftrightarrow> \<not> (isspace c \<or> c = 34 \<or> c = 39)"

definition first_line :: "pystr \<Rightarrow> pystr" where
  "first_line s = takeWhile (\<lambda>c. \<not> is_linebreak c) s"


section \<open>Files\<close>

text \<open>
  A directory of text files is a map from file name to content. The content of
  a file is held as the text that its bytes decode to under UTF-8 (the decoder
  of \<open>read_text(encoding="utf-8", errors="ignore")\<close>, which drops undecodable
  bytes), before newline translation; writing an encodable text stores that
  text. What the operating system does with one open-write-close sequence is an
  input of the model:
  \<^item> \<open>Io_ok\<close>: every system call succeeds;
  \<^item> \<open>Io_open_fails\<close>: \<open>open\<close> raises \<open>OSError\<close> and the file is untouched;
  \<^item> \<open>Io_fails_after n\<close>: the file is opened, and an \<open>OSError\<close> arrives when
    only the first \<open>n\<close> code points of the text have reached the file.

  The text is encoded before any of it is written, so an unencodable text raises
  \<open>UnicodeEncodeError\<close> with the file already opened (and, in mode \<open>w\<close>,
  truncated).
\<close>

type_synonym files = "pystr \<Rightarrow> pystr option"

datatype io_outcome = Io_ok | Io_open_fails | Io_fails_after nat

text \<open>\<open>Path.write_text(data, encoding="utf-8")\<close>: mode \<open>w\<close>.\<close>

definition write_text :: "files \<Rightarrow> io_outcome \<Rightarrow> pystr \<Rightarrow> pystr \<Rightarrow> files \<times> (exn + unit)" where
  "write_text fs io p data =
     (case io of
        Io_open_fails \<Rightarrow> (fs, Inl OSError)
      | Io_fails_after n \<Rightarrow>
          (case utf8_encode data of
             Inl e \<Rightarrow> (fs(p \<mapsto> []), Inl e)
           | Inr bs \<Rightarrow> (fs(p \<mapsto> take n data), Inl OSError))
      | Io_ok \<Rightarrow>
          (case utf8_encode data of
             Inl e \<Rightarrow> (fs(p \<mapsto> []), Inl e)
           | Inr bs \<Rightarrow> (fs(p \<mapsto> data), Inr ())))"

text \<open>
  \<open>with open(path, "a", encoding="utf-8") as w: w.write(data)\<close> on one file,
  whose content is \<open>None\<close> while it does not exist: mode \<open>a\<close> creates it.
\<close>

definition append_text :: "pystr option \<Rightarrow> io_outcome \<Rightarrow> pystr \<Rightarrow> pystr option \<times> (exn + unit)" where
  "append_text old io data =
     (let before = (case old of None \<Rightarrow> [] | Some t \<Rightarrow> t) in
      case io of
        Io_open_fails \<Rightarrow> (old, Inl OSError)
      | Io_fails_after n \<Rightarrow>
          (case utf8_encode data of
             Inl e \<Rightarrow> (Some before, Inl e)
           | Inr bs \<Rightarrow> (Some (before @ take n data), Inl OSError))
      | Io_ok \<Rightarrow>
          (case utf8_encode data of
             Inl e \<Rightarrow> (Some before, Inl e)
           | Inr bs \<Rightarrow> (Some (before @ data), Inr ())))"


section \<open>The session-case registry\<close>

text \<open>
  Both scripts compute the record's path as \<open>CASE_DIR / f"{session_id}.case"\<close>
  with the same \<open>CASE_DIR\<close> (\<open>$FIFO_DIR/session_cases\<close>); the registry is the
  map from that file name to the file's content.
\<close>

definition case_path :: "pystr \<Rightarrow> pystr" where
  "case_path session_id = session_id @ lit ''.case''"

text \<open>
  \<open>write_session_case\<close> (pywen\_userprompt.py lines 56 to 61): whatever
  \<open>write_text\<close> raises is swallowed, and the function returns \<open>None\<close>; the
  model returns the files as the call leaves them.
\<close>

definition write_session_case :: "files \<Rightarrow> io_outcome \<Rightarrow> pystr \<Rightarrow> pystr \<Rightarrow> files" where
  "write_session_case fs io session_id case_id =
     fst (write_text fs io (case_path session_id) case_id)"

text \<open>
  \<open>read_case_id\<close> (pywen\_stop.py lines 46 to 55). What the operating system
  does is again an input: \<open>Rd_ok\<close>, or \<open>p.exists()\<close> raises (a directory on
  the way is not searchable), or \<open>p.read_text\<close> raises (no permission, or the
  file vanished after the test). \<open>read_case_id_try\<close> is the body of the
  \<open>try\<close>: \<open>Inr (Some r)\<close> when it returns \<open>r\<close>, \<open>Inr None\<close> when it falls
  through, \<open>Inl e\<close> when it raises. The subscript \<open>[0]\<close> raises
  \<open>IndexError\<close> on an empty list.
\<close>

datatype rd_outcome = Rd_ok | Rd_exists_raises | Rd_read_raises

definition UNKNOWN :: pystr where
  "UNKNOWN = lit ''UNKNOWN''"

definition read_case_id_try :: "files \<Rightarrow> rd_outcome \<Rightarrow> pystr \<Rightarrow> exn + pystr option" where
  "read_case_id_try fs rd p =
     (if rd = Rd_exists_raises then Inl OSError
      else case fs p of
        None \<Rightarrow> Inr None
      | Some content \<Rightarrow>
          if rd = Rd_read_raises then Inl OSError
          else let txt = strip (universal_newlines content) in
            if txt \<noteq> [] then
              (case splitlines txt of
                 [] \<Rightarrow> Inl IndexError
               | l # ls \<Rightarrow> Inr (Some (strip l)))
            else Inr None)"

definition read_case_id :: "files \<Rightarrow> rd_outcome \<Rightarrow> pystr \<Rightarrow> pystr" where
  "read_case_id fs rd session_id =
     (case read_case_id_try fs rd (case_path session_id) of
        Inr (Some r) \<Rightarrow> r
      | Inr None \<Rightarrow> UNKNOWN
      | Inl e \<Rightarrow> UNKNOWN)"


section \<open>The case pattern\<close>

text \<open>
  \<open>CASE_RE = re.compile(r"^CASE_ID=([^\s\"']+)\s*$", re.IGNORECASE)\<close>
  (pywen\_userprompt.py line 21), and \<open>CASE_RE.match\<close>. The pattern is kept
  as the sequence of nodes that the \<open>re\<close> module parses it into, and matched by
  a backtracking matcher over the constructs it uses:
  \<^item> \<open>At_beginning\<close> (\<open>^\<close>) holds at position 0;
  \<^item> \<open>At_end\<close> (\<open>$\<close> without \<open>MULTILINE\<close>) holds at the end of the string and
    just before a newline that ends the string;
  \<^item> \<open>Literal_ignore p\<close> is the literal \<open>p\<close> under \<open>IGNORECASE\<close>;
  \<^item> \<open>Max_repeat captured n cls\<close> is the greedy repetition, at least \<open>n\<close>
    times, of a character of the class \<open>cls\<close>; when \<open>captured\<close>, it is the
    content of group 1.

  A greedy repetition first takes as many characters as the class allows and
  gives them back one at a time while the rest of the pattern fails.
\<close>

text \<open>
  A literal ASCII letter of a \<open>str\<close> pattern under \<open>IGNORECASE\<close> matches the
  code points whose lower case is that of the letter: its two ASCII cases, and
  besides, for \<open>i\<close>, U+0130 and U+0131, for \<open>s\<close>, U+017F, and for \<open>k\<close>,
  U+212A. A literal ASCII character that is not a letter matches itself only.
\<close>

definition ascii_lower :: "pychar \<Rightarrow> pychar" where
  "ascii_lower c = (if 65 \<le> c \<and> c \<le> 90 then c + 32 else c)"

definition literal_ignore :: "pychar \<Rightarrow> pychar \<Rightarrow> bool" where
  "literal_ignore p c \<longleftrightarrow>
     (let lo = ascii_lower p in
      if 97 \<le> lo \<and> lo \<le> 122 then
        c = lo \<or> c + 32 = lo \<or> (lo = 105 \<and> (c = 304 \<or> c = 305))
        \<or> (lo = 115 \<and> c = 383) \<or> (lo = 107 \<and> c = 8490)
      else c = p)"

datatype node = At_beginning | At_end | Literal_ignore pychar
  | Max_repeat bool nat "pychar \<Rightarrow> bool"

fun first_match :: "(nat \<Rightarrow> 'a option) \<Rightarrow> nat list \<Rightarrow> 'a option" where
  "first_match f [] = None"
| "first_match f (k # ks) = (case f k of Some r \<Rightarrow> Some r | None \<Rightarrow> first_match f ks)"

text \<open>
  \<open>sre_match nodes s i g\<close> matches the nodes against \<open>s\<close> from position \<open>i\<close>,
  with \<open>g\<close> the content of group 1 so far (\<open>None\<close> while the group has not
  taken part). It answers \<open>None\<close> when there is no match and otherwise the
  content of group 1 of the first match in backtracking order.
\<close>

fun sre_match :: "node list \<Rightarrow> pystr \<Rightarrow> nat \<Rightarrow> pystr option \<Rightarrow> pystr option option" where
  "sre_match [] s i g = Some g"
| "sre_match (At_beginning # ns) s i g =
     (if i = 0 then sre_match ns s i g else None)"
| "sre_match (At_end # ns) s i g =
     (if i = length s \<or> (Suc i = length s \<and> s ! i = 10) then sre_match ns s i g else None)"
| "sre_match (Literal_ignore p # ns) s i g =
     (if i < length s \<and> literal_ignore p (s ! i) then sre_match ns s (Suc i) g else None)"
| "sre_match (Max_repeat captured n cls # ns) s i g =
     first_match
       (\<lambda>k. sre_match ns s (i + k) (if captured then Some (take k (drop i s)) else g))
       (rev [n ..< Suc (length (takeWhile cls (drop i s)))])"

definition CASE_RE :: "node list" where
  "CASE_RE =
     At_beginning # map Literal_ignore (lit ''CASE_ID='')
     @ [Max_repeat True 1 token_char, Max_repeat False 0 isspace, At_end]"

text \<open>
  \<open>Pattern.match(s)\<close> tries the pattern at position 0 only. \<open>None\<close> is no
  match; \<open>Some g\<close> is a match object whose \<open>group(1)\<close> is \<open>g\<close>.
\<close>

definition re_match :: "node list \<Rightarrow> pystr \<Rightarrow> pystr option option" where
  "re_match pat s = sre_match pat s 0 None"


section \<open>The prompt hook\<close>

text \<open>
  What a script reads from standard input, and what \<open>json.loads\<close> makes of
  it: the value it returns, or the exception it raises (\<open>JSONDecodeError\<close> on
  text that is not JSON, also on the empty text). Standard input is taken as
  already decoded.
\<close>

record stdin =
  raw :: pystr
  json_loads :: "exn + pyval"

text \<open>
  \<open>parse_stdin_json\<close> of pywen\_userprompt.py (lines 23 to 28): whatever
  \<open>json.loads\<close> returns is returned, a dict or not.
\<close>

definition parse_stdin_json_prompt :: "stdin \<Rightarrow> pyval" where
  "parse_stdin_json_prompt inp =
     (case json_loads inp of Inl e \<Rightarrow> PDict [] | Inr v \<Rightarrow> v)"

text \<open>
  \<open>extract_prompt\<close> (lines 30 to 41). A string value is returned even when
  it is empty. The loop over \<open>PROMPT_KEYS_IN\<close> is \<open>scan_prompt_keys\<close>.
\<close>

definition PROMPT_KEYS_IN :: "pystr list" where
  "PROMPT_KEYS_IN = [lit ''prompt'', lit ''user_prompt'', lit ''userPrompt'']"

fun scan_prompt_keys :: "pyval \<Rightarrow> pystr list \<Rightarrow> exn + pystr option" where
  "scan_prompt_keys data [] = Inr None"
| "scan_prompt_keys data (k # ks) =
     (case py_get data k of
        Inl e \<Rightarrow> Inl e
      | Inr v \<Rightarrow>
          (case v of
             PStr s \<Rightarrow> Inr (Some s)
           | _ \<Rightarrow> scan_prompt_keys data ks))"

definition extract_prompt :: "pyval \<Rightarrow> exn + pystr" where
  "extract_prompt data =
     (case scan_prompt_keys data PROMPT_KEYS_IN of
        Inl e \<Rightarrow> Inl e
      | Inr (Some v) \<Rightarrow> Inr v
      | Inr None \<Rightarrow>
          (case py_get data (lit ''input'') of
             Inl e \<Rightarrow> Inl e
           | Inr inp \<Rightarrow>
               (case inp of
                  PDict d \<Rightarrow>
                    (case scan_prompt_keys inp PROMPT_KEYS_IN of
                       Inl e \<Rightarrow> Inl e
                     | Inr (Some v) \<Rightarrow> Inr v
                     | Inr None \<Rightarrow> Inr [])
                | _ \<Rightarrow> Inr [])))"

text \<open>
  One run of a script's \<open>main\<close>: the JSON documents printed on standard output
  (each \<open>print(json.dumps(x))\<close> adds the value \<open>x\<close>), the state of the files it
  leaves, and what \<open>main\<close> returns, or the exception that leaves it.
\<close>

record 'st run =
  stdout :: "pyval list"
  state :: 'st
  returned :: "exn + int"

text \<open>
  The reason text of the blocking event is
  a fixed Chinese sentence around \<open>CASE_ID=<case_id>\<close>, given by its
  code points.
\<close>

definition reason_text :: "pystr \<Rightarrow> pystr" where
  "reason_text case_id =
     [24050, 35760, 24405, 32] @ lit ''CASE_ID='' @ case_id
     @ [65292, 26412, 26465, 25552, 31034, 19981, 20250, 36827, 20837, 19978, 19979, 25991,
        12290]"

definition block_event :: "pystr \<Rightarrow> pyval" where
  "block_event case_id =
     PDict [(lit ''decision'', PStr (lit ''block'')),
            (lit ''reason'', PStr (reason_text case_id))]"

text \<open>
  \<open>main\<close> of pywen\_userprompt.py (lines 63 to 80). \<open>prompt or ""\<close> is
  \<open>prompt\<close>, which is a string. Group 1 takes part in every match of
  \<open>CASE_RE\<close>; were it \<open>None\<close>, \<open>write_text\<close> would refuse it with a
  \<open>TypeError\<close> that \<open>write_session_case\<close> swallows, and the reason would
  read \<open>None\<close>.
\<close>

definition userprompt_main :: "stdin \<Rightarrow> nat \<Rightarrow> files \<Rightarrow> io_outcome \<Rightarrow> files run" where
  "userprompt_main inp pid fs io =
     (let data = parse_stdin_json_prompt inp in
      case extract_prompt data of
        Inl e \<Rightarrow> \<lparr>stdout = [], state = fs, returned = Inl e\<rparr>
      | Inr prompt \<Rightarrow>
      (case extract_session_id pid data of
        Inl e \<Rightarrow> \<lparr>stdout = [], state = fs, returned = Inl e\<rparr>
      | Inr session_id \<Rightarrow>
      (case re_match CASE_RE prompt of
        None \<Rightarrow> \<lparr>stdout = [PDict []], state = fs, returned = Inr 0\<rparr>
      | Some None \<Rightarrow>
          \<lparr>stdout = [block_event (lit ''None'')], state = fs, returned = Inr 0\<rparr>
      | Some (Some case_id) \<Rightarrow>
          \<lparr>stdout = [block_event case_id],
           state = write_session_case fs io session_id case_id,
           returned = Inr 0\<rparr>)))"










section \<open>The completion signal emitter\<close>

text \<open>
  What the operating system answers to the calls of \<open>write_done\<close>, one field
  per call site, is an input of the model:
  \<^item> \<open>exists_first\<close>, \<open>is_fifo\<close>, \<open>exists_second\<close>: the results of
    \<open>FIFO_PATH.exists()\<close> (line 63), \<open>FIFO_PATH.is_fifo()\<close> (line 63) and
    \<open>FIFO_PATH.exists()\<close> (line 64), each a bool or an exception;
  \<^item> \<open>unlink\<close>, \<open>mkfifo\<close>: \<open>None\<close> when the call succeeds, else the
    exception it raises (\<open>os.mkfifo\<close> does not exist on Windows, where the
    call raises \<open>AttributeError\<close>);
  \<^item> \<open>open_fails\<close>: \<open>os.open\<close> with \<open>O_WRONLY | O_NONBLOCK\<close> raises
    \<open>OSError\<close> (no reader is attached, among other reasons);
  \<^item> \<open>write_result\<close>: \<open>os.write\<close> raises \<open>OSError\<close> (\<open>None\<close>) or takes the
    first \<open>n\<close> bytes;
  \<^item> \<open>close_fails\<close>: \<open>os.close\<close> raises \<open>OSError\<close>;
  \<^item> \<open>log_io\<close>: the outcome of the append to the fallback log.

  The state that \<open>write_done\<close> changes is the bytes received by the FIFO and
  the content of the fallback log (\<open>None\<close> while the log does not exist).
\<close>

record emit_env =
  exists_first :: "exn + bool"
  is_fifo :: "exn + bool"
  exists_second :: "exn + bool"
  unlink :: "exn option"
  mkfifo :: "exn option"
  open_fails :: bool
  write_result :: "nat option"
  close_fails :: bool
  log_io :: io_outcome

record channels =
  fifo_received :: "nat list"
  fallback_log :: "pystr option"

text \<open>The record \<open>f"{case_id} DONE\n"\<close>.\<close>

definition done_record :: "pystr \<Rightarrow> pystr" where
  "done_record case_id = case_id @ lit '' DONE'' @ [10]"

text \<open>
  The first \<open>try\<close> block of \<open>write_done\<close> (pywen\_stop.py lines 63 to 66).
  \<open>not exists() or not is_fifo()\<close> does not call \<open>is_fifo\<close> when the path
  does not exist.
\<close>

definition channel_check :: "emit_env \<Rightarrow> exn + unit" where
  "channel_check env =
     (case exists_first env of
        Inl e \<Rightarrow> Inl e
      | Inr ex \<Rightarrow>
          (case (if \<not> ex then Inr True
                 else (case is_fifo env of Inl e \<Rightarrow> Inl e | Inr f \<Rightarrow> Inr (\<not> f))) of
             Inl e \<Rightarrow> Inl e
           | Inr False \<Rightarrow> Inr ()
           | Inr True \<Rightarrow>
               (case exists_second env of
                  Inl e \<Rightarrow> Inl e
                | Inr ex2 \<Rightarrow>
                    (case (if ex2 then unlink env else None) of
                       Some e \<Rightarrow> Inl e
                     | None \<Rightarrow>
                         (case mkfifo env of
                            Some e \<Rightarrow> Inl e
                          | None \<Rightarrow> Inr ())))))"

text \<open>
  The fallback (lines 68 to 73, and the same text at lines 83 to 88): the
  append is tried, and the function returns \<open>"file"\<close> whether the append
  succeeded or raised.
\<close>

definition fallback :: "emit_env \<Rightarrow> channels \<Rightarrow> pystr \<Rightarrow> channels \<times> (exn + pystr)" where
  "fallback env ch case_id =
     (case append_text (fallback_log ch) (log_io env) (done_record case_id) of
        (log', Inr u) \<Rightarrow> (ch\<lparr>fallback_log := log'\<rparr>, Inr (lit ''file''))
      | (log', Inl e) \<Rightarrow> (ch\<lparr>fallback_log := log'\<rparr>, Inr (lit ''file'')))"

text \<open>
  Lines 76 to 80: the bytes that reached the FIFO, and whether the block
  raised. The record is encoded after \<open>os.open\<close> has succeeded; \<open>os.close\<close>
  runs in the \<open>finally\<close> clause, and an exception it raises replaces the one
  under way.
\<close>

definition try_preferred :: "emit_env \<Rightarrow> pystr \<Rightarrow> nat list \<times> (exn + unit)" where
  "try_preferred env case_id =
     (if open_fails env then ([], Inl OSError)
      else
        (case (case utf8_encode (done_record case_id) of
                 Inl e \<Rightarrow> ([], Inl e)
               | Inr bs \<Rightarrow>
                   (case write_result env of
                      None \<Rightarrow> ([], Inl OSError)
                    | Some n \<Rightarrow> (take n bs, Inr ()))) of
           (sent, body) \<Rightarrow> (sent, if close_fails env then Inl OSError else body)))"

text \<open>
  \<open>write_done\<close> (lines 58 to 88). The first block's handler is
  \<open>except Exception\<close>, the second block's is \<open>except OSError\<close>: an exception
  of the second block that is not an \<open>OSError\<close> leaves the function.
\<close>

definition write_done :: "emit_env \<Rightarrow> channels \<Rightarrow> pystr \<Rightarrow> channels \<times> (exn + pystr)" where
  "write_done env ch case_id =
     (case channel_check env of
        Inl e \<Rightarrow> fallback env ch case_id
      | Inr u \<Rightarrow>
          (case try_preferred env case_id of
             (sent, r) \<Rightarrow>
               (let ch' = ch\<lparr>fifo_received := fifo_received ch @ sent\<rparr> in
                case r of
                  Inr u \<Rightarrow> (ch', Inr (lit ''fifo''))
                | Inl e \<Rightarrow>
                    if is_OSError e then fallback env ch' case_id
                    else (ch', Inl e))))"


section \<open>The stop hook\<close>

text \<open>
  \<open>parse_stdin_json\<close> of pywen\_stop.py (lines 25 to 30): the empty input is
  the empty dict without a call of \<open>json.loads\<close>; otherwise whatever
  \<open>json.loads\<close> returns is returned, a dict or not.
\<close>

definition parse_stdin_json_stop :: "stdin \<Rightarrow> pyval" where
  "parse_stdin_json_stop inp =
     (if raw inp \<noteq> [] then
        (case json_loads inp of Inl e \<Rightarrow> PDict [] | Inr v \<Rightarrow> v)
      else PDict [])"

text \<open>
  The message of the outbound event: a check mark (U+2705), then
  \<open>[Stop] Recorded DONE for CASE_ID=<case_id> (via <mode>).\<close>
\<close>

definition stop_message :: "pystr \<Rightarrow> pystr \<Rightarrow> pystr" where
  "stop_message case_id mode =
     [9989] @ lit '' [Stop] Recorded DONE for CASE_ID='' @ case_id
     @ lit '' (via '' @ mode @ lit '').''"

text \<open>
  \<open>main\<close> of pywen\_stop.py (lines 91 to 100). The registry files are read
  only; the state of the run is the channels. (The two \<open>mkdir\<close> calls at module
  level run when the script is loaded, before \<open>main\<close>, and are not part of
  it.)
\<close>

definition stop_main ::
  "stdin \<Rightarrow> nat \<Rightarrow> files \<Rightarrow> rd_outcome \<Rightarrow> emit_env \<Rightarrow> channels \<Rightarrow> channels run" where
  "stop_main inp pid fs rd env ch =
     (let data = parse_stdin_json_stop inp in
      case extract_session_id pid data of
        Inl e \<Rightarrow> \<lparr>stdout = [], state = ch, returned = Inl e\<rparr>
      | Inr session_id \<Rightarrow>
          (let case_id = read_case_id fs rd session_id in
           case write_done env ch case_id of
             (ch', Inl e) \<Rightarrow> \<lparr>stdout = [], state = ch', returned = Inl e\<rparr>
           | (ch', Inr mode) \<Rightarrow>
               \<lparr>stdout = [PDict [(lit ''systemMessage'', PStr (stop_message case_id mode))]],
                state = ch',
                returned = Inr 0\<rparr>))"

text \<open>
  \<open>sys.exit(main())\<close>: the exit status of the process is what \<open>main\<close> returns;
  when an exception leaves \<open>main\<close>, the interpreter prints the traceback on
  standard error and the exit status is 1.
\<close>

definition exit_status :: "'st run \<Rightarrow> int" where
  "exit_status r = (case returned r of Inl e \<Rightarrow> 1 | Inr code \<Rightarrow> code)"


text \<open>
  Environments and states for the examples below: the FIFO does not exist and
  \<open>mkfifo\<close> is refused, with a given outcome of the append to the log; the
  FIFO exists with a reader attached and every call succeeds; no log yet; a
  log that holds one record. \<open>array_stdin\<close> is the input \<^verbatim>\<open>[]\<close>, which
  \<open>json.loads\<close> turns into the empty list.
\<close>

definition env_mkfifo_refused :: "io_outcome \<Rightarrow> emit_env" where
  "env_mkfifo_refused io =
     \<lparr>exists_first = Inr False, is_fifo = Inr False, exists_second = Inr False,
      unlink = None, mkfifo = Some OSError, open_fails = True, write_result = None,
      close_fails = False, log_io = io\<rparr>"

definition env_reader_attached :: emit_env where
  "env_reader_attached =
     \<lparr>exists_first = Inr True, is_fifo = Inr True, exists_second = Inr True,
      unlink = None, mkfifo = None, open_fails = False, write_result = Some 4096,
      close_fails = False, log_io = Io_ok\<rparr>"

definition no_log :: channels where
  "no_log = \<lparr>fifo_received = [], fallback_log = None\<rparr>"

definition one_record_log :: channels where
  "one_record_log = \<lparr>fifo_received = [], fallback_log = Some (lit ''A DONE'' @ [10])\<rparr>"

definition array_stdin :: stdin where
  "array_stdin = \<lparr>raw = lit ''[]'', json_loads = Inr (PList [])\<rparr>"


section \<open>Properties of session identifier resolution\<close>

lemma nonempty_str_Some: "nonempty_str v = Some s \<Longrightarrow> s \<noteq> []"
  by (cases v) (auto split: if_splits)

lemma pid_name_nonempty: "pid_name pid \<noteq> []"
  by (simp add: pid_name_def lit_def)

lemma extract_session_id_dict:
  "extract_session_id pid (PDict d) = Inr (resolve_session_spec pid d)"
  by (simp add: extract_session_id_def resolve_session_spec_def SESSION_KEYS_def
      nested_session_id_def pid_name_def split: option.splits pyval.splits)

lemma nested_session_id_Some: "nested_session_id d = Some s \<Longrightarrow> s \<noteq> []"
  by (auto simp: nested_session_id_def split: pyval.splits dest: nonempty_str_Some)

lemma resolve_session_spec_nonempty: "resolve_session_spec pid d \<noteq> []"
  by (auto simp: resolve_session_spec_def lit_def split: option.splits
      dest: nonempty_str_Some nested_session_id_Some)

text \<open>
  Claim C8. For every inbound event object, the resolved session identifier is
  the value of the first of \<open>session_id\<close>, \<open>sessionId\<close>, \<open>sessionID\<close>,
  \<open>sid\<close> (in that order) that holds a non-empty string, else the nested
  \<open>session.id\<close> when that is a non-empty string, else \<open>pid_<pid>\<close>; the function
  does not raise on a dict, and what it returns is never the empty string.
\<close>

theorem extract_session_id_resolution_order:
  "extract_session_id pid (PDict d) = Inr (resolve_session_spec pid d)
   \<and> resolve_session_spec pid d \<noteq> []"
  by (simp add: extract_session_id_dict resolve_session_spec_nonempty)

theorem extract_session_id_resolution_order_witness:
  "extract_session_id 42
     (PDict [(lit ''sid'', PStr (lit ''S9'')), (lit ''sessionId'', PStr (lit ''S1''))])
   = Inr (lit ''S1'')"
  using extract_session_id_resolution_order
    [of 42 "[(lit ''sid'', PStr (lit ''S9'')), (lit ''sessionId'', PStr (lit ''S1''))]"]
  by (simp add: resolve_session_spec_def dict_get_def lit_def)

lemma skipped_value_nonempty_str: "skipped_value v \<Longrightarrow> nonempty_str v = None"
  by (cases v) simp_all

lemma scan_session_keys_skipped_prefix:
  "\<forall>k \<in> set pre. skipped_value (dict_get d k) \<Longrightarrow>
   scan_session_keys (PDict d) (pre @ ks) = scan_session_keys (PDict d) ks"
  by (induction pre) (simp_all add: skipped_value_nonempty_str)

text \<open>
  Claim C10. Resolution passes over every candidate whose value is not a string
  or is the empty string (an integer under \<open>session_id\<close>, say) and uses the
  next one in the order: when the candidates before the \<open>i\<close>-th are all passed
  over and the \<open>i\<close>-th holds a non-empty string, that string is the result;
  when all four are passed over, the result is the nested \<open>session.id\<close> if
  \<open>session\<close> is a dict whose \<open>id\<close> is a non-empty string, and otherwise
  (\<open>session\<close> is not a dict, or its \<open>id\<close> is passed over too) the
  synthesized \<open>pid_<pid>\<close>. In no case does the function fail on, or return,
  a value that is not a non-empty string.
\<close>

theorem extract_session_id_falls_through:
  assumes "\<forall>k \<in> set (take i SESSION_KEYS). skipped_value (dict_get d k)"
  shows "(i < length SESSION_KEYS \<and> dict_get d (SESSION_KEYS ! i) = PStr v \<and> v \<noteq> [] \<longrightarrow>
            extract_session_id pid (PDict d) = Inr v)
    \<and> (length SESSION_KEYS \<le> i \<and> dict_get d (lit ''session'') = PDict sd
          \<and> dict_get sd (lit ''id'') = PStr v \<and> v \<noteq> [] \<longrightarrow>
            extract_session_id pid (PDict d) = Inr v)
    \<and> (length SESSION_KEYS \<le> i
          \<and> ((\<forall>sd'. dict_get d (lit ''session'') \<noteq> PDict sd')
               \<or> (dict_get d (lit ''session'') = PDict sd
                   \<and> skipped_value (dict_get sd (lit ''id'')))) \<longrightarrow>
            extract_session_id pid (PDict d) = Inr (lit ''pid_'' @ decimal pid))"
proof (intro conjI impI)
  assume a: "i < length SESSION_KEYS \<and> dict_get d (SESSION_KEYS ! i) = PStr v \<and> v \<noteq> []"
  then have "SESSION_KEYS = take i SESSION_KEYS @ SESSION_KEYS ! i # drop (Suc i) SESSION_KEYS"
    by (simp add: id_take_nth_drop)
  then have "scan_session_keys (PDict d) SESSION_KEYS
      = scan_session_keys (PDict d) (SESSION_KEYS ! i # drop (Suc i) SESSION_KEYS)"
    using scan_session_keys_skipped_prefix [OF assms] by metis
  with a have "scan_session_keys (PDict d) SESSION_KEYS = Inr (Some v)" by simp
  then show "extract_session_id pid (PDict d) = Inr v"
    by (simp add: extract_session_id_def)
next
  assume a: "length SESSION_KEYS \<le> i \<and> dict_get d (lit ''session'') = PDict sd
    \<and> dict_get sd (lit ''id'') = PStr v \<and> v \<noteq> []"
  with assms have "scan_session_keys (PDict d) (SESSION_KEYS @ []) = scan_session_keys (PDict d) []"
    by (intro scan_session_keys_skipped_prefix) simp
  with a show "extract_session_id pid (PDict d) = Inr v"
    by (simp add: extract_session_id_def)
next
  assume a: "length SESSION_KEYS \<le> i
    \<and> ((\<forall>sd'. dict_get d (lit ''session'') \<noteq> PDict sd')
         \<or> (dict_get d (lit ''session'') = PDict sd \<and> skipped_value (dict_get sd (lit ''id''))))"
  with assms have "scan_session_keys (PDict d) (SESSION_KEYS @ []) = scan_session_keys (PDict d) []"
    by (intro scan_session_keys_skipped_prefix) simp
  with a show "extract_session_id pid (PDict d) = Inr (lit ''pid_'' @ decimal pid)"
    by (auto simp: extract_session_id_def pid_name_def skipped_value_nonempty_str
        split: pyval.splits)
qed

theorem extract_session_id_falls_through_witness:
  "extract_session_id 42
     (PDict [(lit ''session_id'', PInt 5), (lit ''sessionId'', PStr []),
             (lit ''sid'', PStr (lit ''x''))]) = Inr (lit ''x'')
   \<and> extract_session_id 42
     (PDict [(lit ''session_id'', PInt 5),
             (lit ''session'', PDict [(lit ''id'', PStr (lit ''N''))])]) = Inr (lit ''N'')
   \<and> extract_session_id 42
     (PDict [(lit ''session_id'', PInt 5), (lit ''session'', PList [])]) = Inr (lit ''pid_42'')"
  using extract_session_id_falls_through
    [of 3 "[(lit ''session_id'', PInt 5), (lit ''sessionId'', PStr []),
            (lit ''sid'', PStr (lit ''x''))]" "lit ''x''" 42 "[]"]
    extract_session_id_falls_through
    [of 4 "[(lit ''session_id'', PInt 5),
            (lit ''session'', PDict [(lit ''id'', PStr (lit ''N''))])]" "lit ''N''" 42
        "[(lit ''id'', PStr (lit ''N''))]"]
    extract_session_id_falls_through
    [of 4 "[(lit ''session_id'', PInt 5), (lit ''session'', PList [])]" "[]" 42 "[]"]
  by (simp add: dict_get_def lit_def SESSION_KEYS_def decimal.simps)


section \<open>Properties of the text operations\<close>

lemma is_linebreak_isspace: "is_linebreak c \<Longrightarrow> isspace c"
  by (auto simp: is_linebreak_def isspace_def)

lemma dropWhile_none: "list_all (\<lambda>c. \<not> P c) s \<Longrightarrow> dropWhile P s = s"
  by (cases s) simp_all

lemma strip_Nil_iff: "strip s = [] \<longleftrightarrow> list_all isspace s"
proof
  assume "strip s = []"
  then have all: "\<forall>x \<in> set (dropWhile isspace s). isspace x"
    by (simp add: strip_def dropWhile_eq_Nil_conv)
  have "dropWhile isspace s = []"
  proof (rule ccontr)
    assume ne: "dropWhile isspace s \<noteq> []"
    then have "\<not> isspace (hd (dropWhile isspace s))" by (rule hd_dropWhile)
    with all ne show False by (meson hd_in_set)
  qed
  then show "list_all isspace s"
    by (simp add: dropWhile_eq_Nil_conv list_all_iff)
next
  assume "list_all isspace s"
  then have "dropWhile isspace s = []"
    by (simp add: dropWhile_eq_Nil_conv list_all_iff)
  then show "strip s = []"
    unfolding strip_def by (simp only: rev.simps dropWhile.simps)
qed

lemma strip_no_space: "list_all (\<lambda>c. \<not> isspace c) s \<Longrightarrow> strip s = s"
  by (simp add: strip_def dropWhile_none)

lemma universal_newlines_id: "13 \<notin> set s \<Longrightarrow> universal_newlines s = s"
  by (induction s rule: universal_newlines.induct) auto

lemma splitlines_from_first:
  "s \<noteq> [] \<Longrightarrow> \<exists>ls. splitlines_from acc s = (rev acc @ first_line s) # ls"
  by (induction acc s rule: splitlines_from.induct) (auto simp: first_line_def is_linebreak_def)

lemma list_all_isspace_universal_newlines:
  "list_all isspace (universal_newlines s) \<longleftrightarrow> list_all isspace s"
  by (induction s rule: universal_newlines.induct) (auto simp: isspace_def)

lemma first_line_universal_newlines: "first_line (universal_newlines s) = first_line s"
  by (induction s rule: universal_newlines.induct) (auto simp: first_line_def is_linebreak_def)

lemma first_line_lstrip_universal_newlines:
  "first_line (dropWhile isspace (universal_newlines s)) = first_line (dropWhile isspace s)"
proof (induction s rule: universal_newlines.induct)
  case 1
  then show ?case by simp
next
  case (2 c)
  then show ?case by (auto simp: isspace_def)
next
  case (3 c d ds)
  have sp: "isspace 10" "isspace 13" by (simp_all add: isspace_def)
  show ?case
  proof (cases "c = 13 \<and> d = 10")
    case True
    with 3 sp show ?thesis by simp
  next
    case False
    note nf = this
    show ?thesis
    proof (cases "isspace c")
      case True
      with 3 nf sp show ?thesis by auto
    next
      case False
      then have "\<not> is_linebreak c" using is_linebreak_isspace by blast
      moreover have "c \<noteq> 13" using False sp by auto
      ultimately show ?thesis using nf False
        first_line_universal_newlines [of "d # ds"]
        by (simp add: first_line_def)
    qed
  qed
qed

lemma strip_append_spaces: "list_all isspace w \<Longrightarrow> strip (a @ w) = strip a"
proof (cases "list_all isspace a")
  case True
  assume "list_all isspace w"
  with True have "list_all isspace (a @ w)" by simp
  then have "strip (a @ w) = []" by (simp only: strip_Nil_iff)
  moreover from True have "strip a = []" by (simp only: strip_Nil_iff)
  ultimately show ?thesis by simp
next
  case False
  assume w: "list_all isspace w"
  from False obtain x where x: "x \<in> set a" "\<not> isspace x"
    by (auto simp: list_all_iff)
  then have "dropWhile isspace (a @ w) = dropWhile isspace a @ w"
    by (rule dropWhile_append1)
  moreover have "dropWhile isspace (rev w @ rev (dropWhile isspace a))
      = dropWhile isspace (rev (dropWhile isspace a))"
    using w by (intro dropWhile_append2) (simp add: list_all_iff)
  ultimately show ?thesis by (simp add: strip_def)
qed

lemma first_line_no_linebreak: "list_all (\<lambda>c. \<not> is_linebreak c) s \<Longrightarrow> first_line s = s"
  by (simp add: first_line_def list_all_iff)

lemma strip_first_line_append_spaces:
  assumes "list_all isspace w"
  shows "strip (first_line (a @ w)) = strip (first_line a)"
proof (cases "list_all (\<lambda>c. \<not> is_linebreak c) a")
  case True
  then have "first_line (a @ w) = a @ first_line w"
    by (simp add: first_line_def list_all_iff takeWhile_append2)
  moreover have "list_all isspace (first_line w)"
    using assms by (auto simp: first_line_def list_all_iff dest: set_takeWhileD)
  ultimately show ?thesis
    using True by (simp add: strip_append_spaces first_line_no_linebreak)
next
  case False
  then obtain x where "x \<in> set a" "is_linebreak x" by (auto simp: list_all_iff)
  then have "first_line (a @ w) = first_line a"
    by (simp add: first_line_def takeWhile_append1)
  then show ?thesis by simp
qed

lemma strip_first_line_strip: "strip (first_line (strip s)) = strip (first_line (dropWhile isspace s))"
proof -
  let ?y = "dropWhile isspace s"
  let ?w = "rev (takeWhile isspace (rev ?y))"
  have "strip s @ ?w = rev (takeWhile isspace (rev ?y) @ dropWhile isspace (rev ?y))"
    unfolding strip_def by (simp only: rev_append)
  also have "\<dots> = rev (rev ?y)" by (simp only: takeWhile_dropWhile_id)
  finally have y: "?y = strip s @ ?w" by simp
  have "list_all isspace ?w" by (auto simp: list_all_iff dest: set_takeWhileD)
  then have "strip (first_line (strip s @ ?w)) = strip (first_line (strip s))"
    by (rule strip_first_line_append_spaces)
  with y show ?thesis by simp
qed

lemma strip_universal_newlines_Nil_iff: "strip (universal_newlines s) = [] \<longleftrightarrow> strip s = []"
  by (simp add: strip_Nil_iff list_all_isspace_universal_newlines)

lemma first_line_lstrip_nonempty:
  assumes "strip s \<noteq> []"
  shows "strip (first_line (dropWhile isspace s)) \<noteq> []"
proof -
  let ?y = "dropWhile isspace s"
  from assms have ne: "?y \<noteq> []"
    by (metis strip_def dropWhile.simps(1) rev.simps(1))
  then have h: "\<not> isspace (hd ?y)" by (rule hd_dropWhile)
  then have "\<not> is_linebreak (hd ?y)" using is_linebreak_isspace by blast
  with ne have "hd ?y \<in> set (first_line ?y)"
    by (cases ?y) (simp_all add: first_line_def)
  with h have "\<not> list_all isspace (first_line ?y)" by (auto simp: list_all_iff)
  then show ?thesis by (simp add: strip_Nil_iff)
qed

lemma token_char_no_space: "list_all token_char s \<Longrightarrow> list_all (\<lambda>c. \<not> isspace c) s"
  by (simp add: list_all_iff token_char_def)

lemma token_first_line: "list_all token_char s \<Longrightarrow> first_line s = s"
  by (rule first_line_no_linebreak) (auto simp: list_all_iff token_char_def dest: is_linebreak_isspace)


section \<open>Properties of the session-case registry\<close>

lemma write_text_ok:
  "snd (write_text fs io p data) = Inr () \<Longrightarrow> fst (write_text fs io p data) = fs(p \<mapsto> data)"
  by (auto simp: write_text_def split: io_outcome.splits sum.splits)

lemma read_case_id_eq:
  "read_case_id fs rd sid =
     (if rd \<noteq> Rd_ok then UNKNOWN
      else case fs (case_path sid) of
        None \<Rightarrow> UNKNOWN
      | Some content \<Rightarrow>
          if strip content = [] then UNKNOWN
          else strip (first_line (dropWhile isspace content)))"
proof (cases "fs (case_path sid)")
  case None
  then show ?thesis by (cases rd) (simp_all add: read_case_id_def read_case_id_try_def)
next
  case (Some content)
  show ?thesis
  proof (cases "rd = Rd_ok \<and> strip content \<noteq> []")
    case False
    with Some show ?thesis
      by (cases rd) (auto simp: read_case_id_def read_case_id_try_def
          strip_universal_newlines_Nil_iff)
  next
    case True
    let ?txt = "strip (universal_newlines content)"
    from True have ne: "?txt \<noteq> []" by (simp add: strip_universal_newlines_Nil_iff)
    then obtain ls where sl: "splitlines ?txt = first_line ?txt # ls"
      using splitlines_from_first [of ?txt "[]"] by (auto simp: splitlines_def)
    have "strip (first_line ?txt) = strip (first_line (dropWhile isspace content))"
      by (simp add: strip_first_line_strip first_line_lstrip_universal_newlines)
    with True Some ne sl show ?thesis
      by (simp add: read_case_id_def read_case_id_try_def)
  qed
qed

text \<open>
  Claim C2, amended. For every session identifier and every non-empty case
  identifier without whitespace and without quote characters: when the write of
  \<open>write_session_case\<close> succeeds and the read of \<open>read_case_id\<close> does not
  raise, \<open>read_case_id\<close> for the same session returns the case identifier
  exactly.
\<close>

theorem put_then_get:
  assumes "case_id \<noteq> []" and "list_all token_char case_id"
    and "snd (write_text fs io (case_path session_id) case_id) = Inr ()"
  shows "read_case_id (write_session_case fs io session_id case_id) Rd_ok session_id = case_id"
proof -
  from assms(2) have ns: "list_all (\<lambda>c. \<not> isspace c) case_id" by (rule token_char_no_space)
  then have "strip case_id = case_id" by (rule strip_no_space)
  moreover from ns have "dropWhile isspace case_id = case_id" by (rule dropWhile_none)
  moreover from assms(2) have "first_line case_id = case_id" by (rule token_first_line)
  moreover have "write_session_case fs io session_id case_id = fs(case_path session_id \<mapsto> case_id)"
    using assms(3) by (simp add: write_session_case_def write_text_ok)
  ultimately show ?thesis using assms(1) by (simp add: read_case_id_eq)
qed

theorem put_then_get_witness:
  "read_case_id (write_session_case Map.empty Io_ok (lit ''S1'') (lit ''XYZ'')) Rd_ok (lit ''S1'')
   = lit ''XYZ''"
  using put_then_get [of "lit ''XYZ''" Map.empty Io_ok "lit ''S1''"]
  by (simp add: lit_def token_char_def isspace_def write_text_def utf8_encode_def
      is_surrogate_def)

text \<open>
  The claim as stated also covers the empty case identifier, which has no
  whitespace and no quote character: it is written successfully, and read back
  as \<open>UNKNOWN\<close>.
\<close>

theorem put_then_get_empty_counterexample:
  "list_all token_char []
   \<and> snd (write_text Map.empty Io_ok (case_path (lit ''S1'')) []) = Inr ()
   \<and> read_case_id (write_session_case Map.empty Io_ok (lit ''S1'') []) Rd_ok (lit ''S1'')
       = lit ''UNKNOWN''"
  by (simp add: read_case_id_def read_case_id_try_def write_session_case_def write_text_def
      utf8_encode_def UNKNOWN_def strip_def)

text \<open>
  Claim C7, amended. \<open>read_case_id\<close> returns \<open>UNKNOWN\<close> when reading raises,
  when the record file does not exist, and when its content is empty after
  trimming; in every other case it returns the first line of the content after
  the leading whitespace, with surrounding whitespace stripped. The result is
  never empty. (The sentinel is also what comes back when that first line is
  itself \<open>UNKNOWN\<close>, so the three conditions are sufficient, not necessary.)
\<close>

theorem read_case_id_result:
  "read_case_id fs rd session_id =
     (if rd \<noteq> Rd_ok then UNKNOWN
      else case fs (case_path session_id) of
        None \<Rightarrow> UNKNOWN
      | Some content \<Rightarrow>
          if strip content = [] then UNKNOWN
          else strip (first_line (dropWhile isspace content)))
   \<and> read_case_id fs rd session_id \<noteq> []"
proof
  show eq: "read_case_id fs rd session_id =
     (if rd \<noteq> Rd_ok then UNKNOWN
      else case fs (case_path session_id) of
        None \<Rightarrow> UNKNOWN
      | Some content \<Rightarrow>
          if strip content = [] then UNKNOWN
          else strip (first_line (dropWhile isspace content)))"
    by (rule read_case_id_eq)
  have "UNKNOWN \<noteq> []" by (simp add: UNKNOWN_def lit_def)
  then show "read_case_id fs rd session_id \<noteq> []"
    by (simp add: eq first_line_lstrip_nonempty split: option.splits)
qed

theorem read_case_id_result_witness:
  "read_case_id
     [case_path (lit ''S1'') \<mapsto> [32, 10] @ lit '' XY '' @ [13, 10] @ lit ''Z'' @ [10]]
     Rd_ok (lit ''S1'') = lit ''XY''"
  using read_case_id_result
    [of "[case_path (lit ''S1'') \<mapsto> [32, 10] @ lit '' XY '' @ [13, 10] @ lit ''Z'' @ [10]]"
        Rd_ok "lit ''S1''"]
  by (simp add: lit_def strip_def isspace_def first_line_def is_linebreak_def)

text \<open>
  The claim as stated says "exactly when": but a record that exists, is read
  without error and holds the non-blank text \<open>UNKNOWN\<close> (as the prompt
  \<open>CASE_ID=UNKNOWN\<close> leaves it) also yields the sentinel. And the line
  returned is the first line of the trimmed content: a record whose first line
  is empty yields its first non-blank line.
\<close>

theorem read_case_id_sentinel_counterexample:
  "[case_path (lit ''S1'') \<mapsto> lit ''UNKNOWN''] (case_path (lit ''S1'')) = Some (lit ''UNKNOWN'')
   \<and> strip (lit ''UNKNOWN'') \<noteq> []
   \<and> read_case_id [case_path (lit ''S1'') \<mapsto> lit ''UNKNOWN''] Rd_ok (lit ''S1'') = UNKNOWN
   \<and> first_line ([10] @ lit ''abc'' @ [10] @ lit ''def'') = []
   \<and> read_case_id [case_path (lit ''S1'') \<mapsto> [10] @ lit ''abc'' @ [10] @ lit ''def'']
         Rd_ok (lit ''S1'') = lit ''abc''"
  by (simp add: read_case_id_def read_case_id_try_def UNKNOWN_def strip_def lit_def
      isspace_def first_line_def is_linebreak_def splitlines_def)


section \<open>Properties of the case pattern\<close>









section \<open>Properties of the prompt hook\<close>

lemma extract_prompt_dict: "extract_prompt data = Inr p \<Longrightarrow> \<exists>d. data = PDict d"
  by (cases data) (simp_all add: extract_prompt_def PROMPT_KEYS_IN_def)


lemma userprompt_main_no_match:
  assumes "extract_prompt (parse_stdin_json_prompt inp) = Inr prompt"
    and "re_match CASE_RE prompt = None"
  shows "userprompt_main inp pid fs io = \<lparr>stdout = [PDict []], state = fs, returned = Inr 0\<rparr>"
proof -
  from assms(1) obtain d where d: "parse_stdin_json_prompt inp = PDict d"
    using extract_prompt_dict by blast
  then have "extract_session_id pid (parse_stdin_json_prompt inp)
      = Inr (resolve_session_spec pid d)"
    by (simp add: extract_session_id_dict)
  with assms show ?thesis by (simp add: userprompt_main_def)
qed
















section \<open>Properties of the completion signal emitter\<close>

lemma fallback_returns_file: "snd (fallback env ch case_id) = Inr (lit ''file'')"
  by (simp add: fallback_def split: prod.splits sum.splits)

lemma fallback_log_after:
  "fallback_log (fst (fallback env ch case_id))
   = fst (append_text (fallback_log ch) (log_io env) (done_record case_id))"
  by (simp add: fallback_def split: prod.splits sum.splits)

lemma append_text_ok:
  "snd (append_text old io data) = Inr () \<Longrightarrow>
   fst (append_text old io data) = Some ((case old of None \<Rightarrow> [] | Some t \<Rightarrow> t) @ data)"
  by (auto simp: append_text_def Let_def split: io_outcome.splits sum.splits)

lemma try_preferred_encodable:
  "\<not> list_ex is_surrogate case_id \<Longrightarrow> snd (try_preferred env case_id) = Inl e \<Longrightarrow> e = OSError"
  by (auto simp: try_preferred_def utf8_encode_def done_record_def lit_def is_surrogate_def
      split: if_splits option.splits)

lemma write_done_reaches_fallback:
  assumes "channel_check env = Inl e \<or> snd (try_preferred env case_id) = Inl OSError"
  shows "write_done env ch case_id =
     fallback env
       (if channel_check env = Inr () then
          ch\<lparr>fifo_received := fifo_received ch @ fst (try_preferred env case_id)\<rparr>
        else ch)
       case_id"
proof (cases "channel_check env")
  case (Inl e')
  then show ?thesis by (simp add: write_done_def)
next
  case (Inr u)
  with assms have "snd (try_preferred env case_id) = Inl OSError" by simp
  with Inr show ?thesis
    by (cases "try_preferred env case_id") (simp add: write_done_def)
qed

lemma write_done_file_is_fallback:
  assumes "snd (write_done env ch case_id) = Inr (lit ''file'')"
  shows "channel_check env \<noteq> Inr () \<or> snd (try_preferred env case_id) = Inl OSError"
proof (cases "channel_check env")
  case (Inl e)
  then show ?thesis by simp
next
  case (Inr u)
  obtain sent r where tp: "try_preferred env case_id = (sent, r)"
    by (cases "try_preferred env case_id")
  have "r = Inl OSError"
  proof (cases r)
    case (Inl e)
    with assms Inr tp show ?thesis
      by (cases e) (simp_all add: write_done_def)
  next
    case (Inr u')
    with assms \<open>channel_check env = Inr u\<close> tp show ?thesis
      by (simp add: write_done_def lit_def)
  qed
  with tp show ?thesis by simp
qed

lemma write_done_encodable:
  assumes "\<not> list_ex is_surrogate case_id"
  shows "snd (write_done env ch case_id) = Inr (lit ''fifo'')
       \<or> snd (write_done env ch case_id) = Inr (lit ''file'')"
proof (cases "channel_check env")
  case (Inl e)
  then show ?thesis by (simp add: write_done_def fallback_returns_file)
next
  case (Inr u)
  obtain sent r where tp: "try_preferred env case_id = (sent, r)"
    by (cases "try_preferred env case_id")
  show ?thesis
  proof (cases r)
    case (Inl e)
    with tp assms have "e = OSError" using try_preferred_encodable [of case_id env e] by simp
    with Inl Inr tp show ?thesis by (simp add: write_done_def fallback_returns_file)
  next
    case (Inr u')
    with \<open>channel_check env = Inr u\<close> tp show ?thesis by (simp add: write_done_def)
  qed
qed

lemma splitlines_from_one_line:
  "list_all (\<lambda>c. \<not> is_linebreak c) s \<Longrightarrow> splitlines_from acc (s @ [10]) = [rev acc @ s]"
proof (induction s arbitrary: acc)
  case Nil
  then show ?case by (simp add: is_linebreak_def)
next
  case (Cons c cs)
  then have c: "\<not> is_linebreak c" and "c \<noteq> 13" by (auto simp: is_linebreak_def)
  from Cons.prems have rest: "list_all (\<lambda>c. \<not> is_linebreak c) cs" by simp
  obtain d ds where eq: "cs @ [10] = d # ds" by (cases cs) auto
  have "splitlines_from acc ((c # cs) @ [10]) = splitlines_from acc (c # d # ds)"
    using eq by simp
  also have "\<dots> = splitlines_from (c # acc) (d # ds)"
    using c \<open>c \<noteq> 13\<close> by simp
  also have "\<dots> = splitlines_from (c # acc) (cs @ [10])"
    using eq by simp
  also have "\<dots> = [rev (c # acc) @ cs]"
    using rest by (rule Cons.IH)
  finally show ?case by simp
qed

lemma splitlines_done_record:
  assumes "list_all (\<lambda>c. \<not> is_linebreak c) case_id"
  shows "splitlines (case_id @ lit '' DONE'' @ [10]) = [case_id @ lit '' DONE'']"
proof -
  have "list_all (\<lambda>c. \<not> is_linebreak c) (case_id @ lit '' DONE'')"
    using assms by (simp add: lit_def is_linebreak_def)
  then have "splitlines_from [] ((case_id @ lit '' DONE'') @ [10]) = [rev [] @ case_id @ lit '' DONE'']"
    by (rule splitlines_from_one_line)
  then show ?thesis by (simp add: splitlines_def)
qed

text \<open>
  Claim C1: for every case identifier, \<open>write_done\<close> returns \<open>"fifo"\<close> or
  \<open>"file"\<close> and never raises. The code does so for every case identifier that
  UTF-8 can encode, whatever the operating system answers (lemma
  \<open>write_done_encodable\<close>), but not for one that holds a lone surrogate when the
  FIFO has been opened: the record cannot be encoded, the
  \<open>UnicodeEncodeError\<close> is not an \<open>OSError\<close>, and the handler of the second
  block lets it leave \<open>write_done\<close>. The handlers of the first block and of the
  fallback catch every \<open>Exception\<close>: with \<open>mkfifo\<close> refused the same case
  identifier yields \<open>"file"\<close>.
\<close>

theorem write_done_raises_on_lone_surrogate:
  "snd (write_done env_reader_attached no_log [55296]) = Inl UnicodeEncodeError
   \<and> snd (write_done (env_mkfifo_refused Io_ok) no_log [55296]) = Inr (lit ''file'')"
  by (simp add: write_done_def channel_check_def try_preferred_def fallback_def
      append_text_def env_reader_attached_def env_mkfifo_refused_def no_log_def
      utf8_encode_def done_record_def is_surrogate_def)

text \<open>
  Claim C4, amended. When the fallback is reached (the channel check raised, or
  the preferred write raised an \<open>OSError\<close>) and the append to the log fails,
  \<open>write_done\<close> does not raise and returns \<open>"file"\<close>: the very indicator it
  returns when the append succeeds, whatever the outcome of the append. The
  failure is not reported to the caller.
\<close>

theorem write_done_fallback_failure_returns_file:
  assumes "channel_check env = Inl e \<or> snd (try_preferred env case_id) = Inl OSError"
    and "snd (append_text (fallback_log ch) (log_io env) (done_record case_id)) = Inl e'"
  shows "snd (write_done env ch case_id) = Inr (lit ''file'')
    \<and> (\<forall>io. snd (write_done (env\<lparr>log_io := io\<rparr>) ch case_id) = Inr (lit ''file''))"
proof
  show "snd (write_done env ch case_id) = Inr (lit ''file'')"
    using assms(1) by (simp add: write_done_reaches_fallback fallback_returns_file)
  show "\<forall>io. snd (write_done (env\<lparr>log_io := io\<rparr>) ch case_id) = Inr (lit ''file'')"
  proof
    fix io
    have "channel_check (env\<lparr>log_io := io\<rparr>) = channel_check env"
      by (simp add: channel_check_def split: sum.splits bool.splits option.splits)
    moreover have "try_preferred (env\<lparr>log_io := io\<rparr>) case_id = try_preferred env case_id"
      by (simp add: try_preferred_def split: sum.splits option.splits)
    ultimately have "channel_check (env\<lparr>log_io := io\<rparr>) = Inl e
        \<or> snd (try_preferred (env\<lparr>log_io := io\<rparr>) case_id) = Inl OSError"
      using assms(1) by simp
    then show "snd (write_done (env\<lparr>log_io := io\<rparr>) ch case_id) = Inr (lit ''file'')"
      by (simp add: write_done_reaches_fallback fallback_returns_file)
  qed
qed

theorem write_done_fallback_failure_returns_file_witness:
  "snd (write_done (env_mkfifo_refused Io_open_fails) no_log (lit ''XYZ'')) = Inr (lit ''file'')
   \<and> snd (write_done (env_mkfifo_refused (Io_fails_after 2)) no_log (lit ''XYZ''))
     = Inr (lit ''file'')"
proof -
  have reach: "channel_check (env_mkfifo_refused Io_open_fails) = Inl OSError
      \<or> snd (try_preferred (env_mkfifo_refused Io_open_fails) (lit ''XYZ'')) = Inl OSError"
    by (simp add: channel_check_def env_mkfifo_refused_def)
  have fails: "snd (append_text (fallback_log no_log) (log_io (env_mkfifo_refused Io_open_fails))
      (done_record (lit ''XYZ''))) = Inl OSError"
    by (simp add: append_text_def env_mkfifo_refused_def)
  have "(env_mkfifo_refused Io_open_fails)\<lparr>log_io := Io_fails_after 2\<rparr>
      = env_mkfifo_refused (Io_fails_after 2)"
    by (simp add: env_mkfifo_refused_def)
  with write_done_fallback_failure_returns_file [OF reach fails] show ?thesis
    by (metis (no_types))
qed

text \<open>
  The claim as stated asks for an indicator distinct from that of a successful
  delivery. With the append refused and with the append successful, the caller
  sees the same value.
\<close>

theorem write_done_fallback_failure_counterexample:
  "snd (append_text (fallback_log no_log) Io_open_fails (done_record (lit ''XYZ''))) = Inl OSError
   \<and> snd (append_text (fallback_log no_log) Io_ok (done_record (lit ''XYZ''))) = Inr ()
   \<and> snd (write_done (env_mkfifo_refused Io_open_fails) no_log (lit ''XYZ''))
     = snd (write_done (env_mkfifo_refused Io_ok) no_log (lit ''XYZ''))"
  by (simp add: write_done_def channel_check_def fallback_def append_text_def
      env_mkfifo_refused_def no_log_def utf8_encode_def done_record_def lit_def
      is_surrogate_def)

text \<open>
  Claim C6, amended. Whenever \<open>write_done\<close> returns \<open>"file"\<close> and the append
  to the fallback log succeeded, the log afterwards is its content before
  followed by exactly \<open><case_id> DONE\<close> and a newline, which is one line when
  the case identifier holds no line boundary.
\<close>

theorem write_done_file_appends_record:
  assumes "snd (write_done env ch case_id) = Inr (lit ''file'')"
    and "snd (append_text (fallback_log ch) (log_io env) (done_record case_id)) = Inr ()"
  shows "fallback_log (fst (write_done env ch case_id))
      = Some ((case fallback_log ch of None \<Rightarrow> [] | Some t \<Rightarrow> t)
              @ case_id @ lit '' DONE'' @ [10])
    \<and> (list_all (\<lambda>c. \<not> is_linebreak c) case_id \<longrightarrow>
        splitlines (case_id @ lit '' DONE'' @ [10]) = [case_id @ lit '' DONE''])"
proof
  from assms(1) have "channel_check env \<noteq> Inr ()
      \<or> snd (try_preferred env case_id) = Inl OSError"
    by (rule write_done_file_is_fallback)
  then have "(\<exists>e. channel_check env = Inl e) \<or> snd (try_preferred env case_id) = Inl OSError"
    by (cases "channel_check env") auto
  then obtain e where "channel_check env = Inl e
      \<or> snd (try_preferred env case_id) = Inl OSError"
    by auto
  note fb = write_done_reaches_fallback [OF this, of ch]
  show "fallback_log (fst (write_done env ch case_id))
      = Some ((case fallback_log ch of None \<Rightarrow> [] | Some t \<Rightarrow> t)
              @ case_id @ lit '' DONE'' @ [10])"
    using assms(2) append_text_ok [of "fallback_log ch" "log_io env" "done_record case_id"]
    by (simp add: fb fallback_log_after done_record_def)
  show "list_all (\<lambda>c. \<not> is_linebreak c) case_id \<longrightarrow>
        splitlines (case_id @ lit '' DONE'' @ [10]) = [case_id @ lit '' DONE'']"
    by (simp add: splitlines_done_record)
qed

theorem write_done_file_appends_record_witness:
  "fallback_log (fst (write_done (env_mkfifo_refused Io_ok) one_record_log (lit ''XYZ'')))
     = Some (lit ''A DONE'' @ [10] @ lit ''XYZ DONE'' @ [10])
   \<and> splitlines (lit ''XYZ DONE'' @ [10]) = [lit ''XYZ DONE'']"
proof -
  have isfile: "snd (write_done (env_mkfifo_refused Io_ok) one_record_log (lit ''XYZ''))
      = Inr (lit ''file'')"
    by (simp add: write_done_def channel_check_def env_mkfifo_refused_def
        fallback_returns_file)
  have ok: "snd (append_text (fallback_log one_record_log) (log_io (env_mkfifo_refused Io_ok))
      (done_record (lit ''XYZ''))) = Inr ()"
    by (simp add: append_text_def env_mkfifo_refused_def utf8_encode_def done_record_def
        lit_def is_surrogate_def)
  show ?thesis
    using write_done_file_appends_record [OF isfile ok]
    by (simp add: one_record_log_def lit_def is_linebreak_def)
qed

text \<open>
  The claim as stated covers every return of \<open>"file"\<close>: but when the append is
  refused, \<open>write_done\<close> returns \<open>"file"\<close> all the same and the log is as it
  was.
\<close>

theorem write_done_file_without_record_counterexample:
  "snd (write_done (env_mkfifo_refused Io_open_fails) one_record_log (lit ''XYZ''))
     = Inr (lit ''file'')
   \<and> fallback_log (fst (write_done (env_mkfifo_refused Io_open_fails) one_record_log
       (lit ''XYZ''))) = fallback_log one_record_log"
  by (simp add: write_done_def channel_check_def fallback_def append_text_def
      env_mkfifo_refused_def one_record_log_def)


section \<open>Properties of the two hooks as processes\<close>

lemma extract_session_id_non_dict:
  "(\<forall>d. data \<noteq> PDict d) \<Longrightarrow> extract_session_id pid data = Inl AttributeError"
  by (cases data) (simp_all add: extract_session_id_def SESSION_KEYS_def)

lemma extract_prompt_non_dict:
  "(\<forall>d. data \<noteq> PDict d) \<Longrightarrow> extract_prompt data = Inl AttributeError"
  by (cases data) (simp_all add: extract_prompt_def PROMPT_KEYS_IN_def)

lemma scan_prompt_keys_dict: "scan_prompt_keys (PDict d) ks \<noteq> Inl e"
  by (induction ks) (simp_all split: pyval.splits)

lemma extract_prompt_on_dict: "\<exists>p. extract_prompt (PDict d) = Inr p"
  using scan_prompt_keys_dict [of d PROMPT_KEYS_IN]
    scan_prompt_keys_dict [of _ PROMPT_KEYS_IN]
  by (auto simp: extract_prompt_def split: sum.splits option.splits pyval.splits)

text \<open>
  On an inbound event that is a JSON object, and on input that is not JSON at
  all, the prompt hook prints exactly one event and returns 0.
\<close>

lemma userprompt_main_on_object:
  assumes "parse_stdin_json_prompt inp = PDict d"
  shows "returned (userprompt_main inp pid fs io) = Inr 0
    \<and> length (stdout (userprompt_main inp pid fs io)) = 1"
proof -
  obtain p where p: "extract_prompt (parse_stdin_json_prompt inp) = Inr p"
    using assms extract_prompt_on_dict by auto
  show ?thesis
  proof (cases "re_match CASE_RE p")
    case None
    with p show ?thesis by (simp add: userprompt_main_no_match)
  next
    case (Some g)
    from assms have "extract_session_id pid (parse_stdin_json_prompt inp)
        = Inr (resolve_session_spec pid d)"
      by (simp add: extract_session_id_dict)
    with p Some show ?thesis
      by (cases g) (simp_all add: userprompt_main_def)
  qed
qed

lemma parse_stdin_json_prompt_malformed:
  "json_loads inp = Inl e \<Longrightarrow> parse_stdin_json_prompt inp = PDict []"
  by (simp add: parse_stdin_json_prompt_def)

lemma parse_stdin_json_stop_malformed:
  "json_loads inp = Inl e \<or> raw inp = [] \<Longrightarrow> parse_stdin_json_stop inp = PDict []"
  by (auto simp: parse_stdin_json_stop_def)

lemma set_strip: "set (strip s) \<subseteq> set s"
proof
  fix x
  assume "x \<in> set (strip s)"
  then have "x \<in> set (dropWhile isspace (rev (dropWhile isspace s)))"
    by (simp add: strip_def)
  then have "x \<in> set (rev (dropWhile isspace s))" by (rule set_dropWhileD)
  then have "x \<in> set (dropWhile isspace s)" by simp
  then show "x \<in> set s" by (rule set_dropWhileD)
qed

lemma set_first_line: "set (first_line s) \<subseteq> set s"
  by (auto simp: first_line_def dest: set_takeWhileD)

lemma read_case_id_encodable:
  assumes "\<And>content. fs (case_path session_id) = Some content \<Longrightarrow> \<not> list_ex is_surrogate content"
  shows "\<not> list_ex is_surrogate (read_case_id fs rd session_id)"
proof -
  have u: "\<not> list_ex is_surrogate UNKNOWN"
    by (simp add: UNKNOWN_def lit_def is_surrogate_def)
  have "\<And>content. \<not> list_ex is_surrogate content \<Longrightarrow>
      \<not> list_ex is_surrogate (strip (first_line (dropWhile isspace content)))"
    using set_strip set_first_line set_dropWhileD
    unfolding list_ex_iff by (meson subsetD)
  with assms u show ?thesis
    by (simp add: read_case_id_eq split: option.splits)
qed

text \<open>
  On an inbound event that is a JSON object, with a registry whose record (if
  any) decodes without surrogates, as every UTF-8 decoding does, the stop hook
  prints exactly one event and returns 0.
\<close>

lemma stop_main_on_object:
  assumes "parse_stdin_json_stop inp = PDict d"
    and "\<And>content. fs (case_path (resolve_session_spec pid d)) = Some content \<Longrightarrow>
           \<not> list_ex is_surrogate content"
  shows "returned (stop_main inp pid fs rd env ch) = Inr 0
    \<and> length (stdout (stop_main inp pid fs rd env ch)) = 1"
proof -
  let ?sid = "resolve_session_spec pid d"
  have sid: "extract_session_id pid (parse_stdin_json_stop inp) = Inr ?sid"
    using assms(1) by (simp add: extract_session_id_dict)
  have "\<not> list_ex is_surrogate (read_case_id fs rd ?sid)"
    using assms(2) by (rule read_case_id_encodable)
  then have "snd (write_done env ch (read_case_id fs rd ?sid)) = Inr (lit ''fifo'')
      \<or> snd (write_done env ch (read_case_id fs rd ?sid)) = Inr (lit ''file'')"
    by (rule write_done_encodable)
  with sid show ?thesis
    by (cases "write_done env ch (read_case_id fs rd ?sid)") (auto simp: stop_main_def)
qed

text \<open>
  Claim C3: for every content of standard input, each hook prints exactly one
  event and exits with status 0. The code does so on a JSON object and on input
  that is not JSON (the two lemmas above), but not on valid JSON that is not an
  object. On the input \<^verbatim>\<open>[]\<close> both hooks call \<open>.get\<close> on a list:
  \<open>AttributeError\<close> leaves \<open>main\<close>, nothing has been printed on standard
  output, and the exit status is 1.
\<close>

theorem main_raises_on_json_array:
  "returned (stop_main array_stdin pid fs rd env ch) = Inl AttributeError
   \<and> stdout (stop_main array_stdin pid fs rd env ch) = []
   \<and> exit_status (stop_main array_stdin pid fs rd env ch) = 1
   \<and> returned (userprompt_main array_stdin pid fs io) = Inl AttributeError
   \<and> stdout (userprompt_main array_stdin pid fs io) = []
   \<and> exit_status (userprompt_main array_stdin pid fs io) = 1"
  by (simp add: stop_main_def userprompt_main_def array_stdin_def parse_stdin_json_stop_def
      parse_stdin_json_prompt_def extract_session_id_def extract_prompt_def SESSION_KEYS_def
      PROMPT_KEYS_IN_def exit_status_def lit_def)


end
